theory Spec2Isabelle
  imports Main "HOL-Library.Multiset" "HOL-Library.Sublist"
begin

text \<open>
  A shallow embedding of the conversational assistant: the reconstruction of the
  messages of a thread from its checkpoints and the projection of a summary (the
  client), the streaming route handler of \<^verbatim>\<open>/chat\<close> with the registry of threads, and
  the responder that retrieves, prompts and completes. A string is the list of its
  UTF-16 code units, one character for each, for strings whose code units are below
  256: the methods that count or compare code units (\<^verbatim>\<open>substring\<close>, \<^verbatim>\<open>slice\<close>,
  \<^verbatim>\<open>startsWith\<close>, \<^verbatim>\<open>split\<close>) are then list functions. What the surroundings do (the
  graph, the writer of the stream, the services, the clock, \<^verbatim>\<open>JSON.stringify\<close>,
  \<^verbatim>\<open>toUpperCase\<close>, \<^verbatim>\<open>toFixed\<close>) is a parameter of the function that uses it.
\<close>

section \<open>Checkpoint reconstruction (src/components/chatInterface.tsx)\<close>

text \<open>
  The interfaces \<^verbatim>\<open>Message\<close> and \<^verbatim>\<open>CheckpointMetadata\<close>. The guards of
  \<^verbatim>\<open>parseCheckpointMetadata\<close> (\<^verbatim>\<open>!metadata.writes\<close>, \<^verbatim>\<open>data?.messages\<close>,
  \<^verbatim>\<open>kwargs?.content\<close>) show which parts may be absent at run time; those are options.
  \<^verbatim>\<open>writes\<close> is an object: its entries are listed in the order of \<^verbatim>\<open>Object.keys\<close>.
  \<^verbatim>\<open>step\<close> is taken to be an integer.
\<close>

datatype role = User | Assistant

record message =
  role :: role
  content :: string

record kwargs_t =
  kw_content :: string

record message_data =
  kwargs :: "kwargs_t option"

record write_entry =
  sender :: string
  messages :: "message_data list option"

record checkpoint_metadata =
  step :: int
  source :: string
  writes :: "(string \<times> write_entry option) list option"

definition parseCheckpointMetadata :: "checkpoint_metadata \<Rightarrow> message option" where
  "parseCheckpointMetadata metadata =
     (case writes metadata of
        None \<Rightarrow> None
      | Some ws \<Rightarrow>
          (case ws of
             [] \<Rightarrow> None
           | (key, data) # _ \<Rightarrow>
               if key = [] then None
               else
                 (case data of
                    None \<Rightarrow> None
                  | Some d \<Rightarrow>
                      (case messages d of
                         None \<Rightarrow> None
                       | Some [] \<Rightarrow> None
                       | Some (messageData # _) \<Rightarrow>
                           (case kwargs messageData of
                              None \<Rightarrow> None
                            | Some kw \<Rightarrow>
                                if kw_content kw = [] then None
                                else Some \<lparr>role =
                                             (if sender d = ''user'' \<or>
                                                 (source metadata = ''input'' \<and> key = ''__start__'')
                                              then User else Assistant),
                                           content = kw_content kw\<rparr>)))))"

text \<open>
  The test of the last \<^verbatim>\<open>filter\<close> of \<^verbatim>\<open>loadMessages\<close>: the callback receives the
  message, its index and the array being filtered, and looks at \<^verbatim>\<open>array[index - 1]\<close>.
\<close>

definition sameMessage :: "message \<Rightarrow> message \<Rightarrow> bool" where
  "sameMessage prevMsg msg \<longleftrightarrow> role prevMsg = role msg \<and> content prevMsg = content msg"

definition keepMessage :: "message list \<Rightarrow> nat \<times> message \<Rightarrow> bool" where
  "keepMessage array = (\<lambda>(index, msg).
     if index = 0 then True else \<not> sameMessage (array ! (index - 1)) msg)"

definition dropConsecutiveDuplicates :: "message list \<Rightarrow> message list" where
  "dropConsecutiveDuplicates array = map snd (filter (keepMessage array) (enumerate 0 array))"

text \<open>
  The chain of \<^verbatim>\<open>loadMessages\<close>: sort by step (the sort of an array is stable, as
  \<^const>\<open>sort_key\<close> is), parse every checkpoint, keep the non-null messages, drop
  consecutive duplicates.
\<close>

definition parsedMessages :: "checkpoint_metadata list \<Rightarrow> message list" where
  "parsedMessages checkpoints =
     map the (filter (\<lambda>msg. msg \<noteq> None)
       (map parseCheckpointMetadata (sort_key step checkpoints)))"

definition loadMessages :: "checkpoint_metadata list \<Rightarrow> message list" where
  "loadMessages checkpoints = dropConsecutiveDuplicates (parsedMessages checkpoints)"

section \<open>Summary projection (src/components/chatInterface.tsx)\<close>

text \<open>
  The string methods \<^verbatim>\<open>parseSummary\<close> calls, on lists of code units:
  \<^verbatim>\<open>startsWith\<close>, \<^verbatim>\<open>split\<close> with a string separator (leftmost matches, not
  overlapping; the empty separator gives the single code units), \<^verbatim>\<open>replace\<close> with a
  string pattern (the first occurrence only), \<^verbatim>\<open>trim\<close> and \<^verbatim>\<open>substring(2)\<close>, which
  is \<^term>\<open>drop 2\<close>. The white space and line terminators \<^verbatim>\<open>trim\<close> removes are, below
  256, the code units 9 to 13, the blank and the no-break space U+00A0.
\<close>

definition startsWith :: "string \<Rightarrow> string \<Rightarrow> bool" where
  "startsWith s searchString \<longleftrightarrow> take (length searchString) s = searchString"

fun splitFrom :: "string \<Rightarrow> string \<Rightarrow> string \<Rightarrow> string list" where
  "splitFrom separator piece [] = [rev piece]"
| "splitFrom separator piece (c # cs) =
     (if separator \<noteq> [] \<and> startsWith (c # cs) separator
      then rev piece # splitFrom separator [] (drop (length separator - 1) cs)
      else splitFrom separator (c # piece) cs)"

definition splitString :: "string \<Rightarrow> string \<Rightarrow> string list" where
  "splitString s separator =
     (if separator = [] then map (\<lambda>c. [c]) s else splitFrom separator [] s)"

fun replaceFirst :: "string \<Rightarrow> string \<Rightarrow> string \<Rightarrow> string" where
  "replaceFirst pattern replacement [] = (if pattern = [] then replacement else [])"
| "replaceFirst pattern replacement (c # cs) =
     (if startsWith (c # cs) pattern
      then replacement @ drop (length pattern) (c # cs)
      else c # replaceFirst pattern replacement cs)"

definition isWhiteSpace :: "char \<Rightarrow> bool" where
  "isWhiteSpace c \<longleftrightarrow>
     c \<in> set [CHR 0x09, CHR 0x0A, CHR 0x0B, CHR 0x0C, CHR 0x0D, CHR '' '', CHR 0xA0]"

definition trim :: "string \<Rightarrow> string" where
  "trim s = rev (dropWhile isWhiteSpace (rev (dropWhile isWhiteSpace s)))"

record formatted_summary =
  discussions :: "string list"
  lastTask :: "string list"
  "context" :: "string list"

definition bulletLines :: "string \<Rightarrow> string \<Rightarrow> string list" where
  "bulletLines section label =
     map (\<lambda>line. drop 2 (trim line))
       (filter (\<lambda>line. startsWith (trim line) ''-'')
         (splitString (trim (replaceFirst label [] section)) ''\<newline>''))"

definition parseSection :: "formatted_summary \<Rightarrow> string \<Rightarrow> formatted_summary" where
  "parseSection formatted section =
     (if startsWith section ''Discussions till now:''
      then formatted\<lparr>discussions := bulletLines section ''Discussions till now:''\<rparr>
      else if startsWith section ''Last task or action item assigned:''
      then formatted\<lparr>lastTask := bulletLines section ''Last task or action item assigned:''\<rparr>
      else if startsWith section ''Important context for next interactions:''
      then formatted\<lparr>context := bulletLines section ''Important context for next interactions:''\<rparr>
      else formatted)"

definition parseSummary :: "string \<Rightarrow> formatted_summary" where
  "parseSummary summary =
     foldl parseSection \<lparr>discussions = [], lastTask = [], context = []\<rparr>
       (splitString summary ''\<newline>\<newline>'')"


section \<open>Streaming gateway (the route handler of /chat)\<close>

text \<open>
  What JavaScript can throw: an \<^verbatim>\<open>Error\<close> object with its message, or any other value.
\<close>

datatype js_thrown = ErrorObject string | NonError

definition errorMessageOf :: "js_thrown \<Rightarrow> string" where
  "errorMessageOf error = (case error of ErrorObject m \<Rightarrow> m | NonError \<Rightarrow> ''Unknown error'')"

text \<open>
  \<^verbatim>\<open>MessageContent\<close> is a string or an array of parts; a part is a string or an object,
  which may have a \<^verbatim>\<open>type\<close>. Content of any other kind (the last \<^verbatim>\<open>return ''\<close> of
  \<^verbatim>\<open>convertMessageContentToString\<close>) is \<open>ContentOther\<close>, with its truthiness. An
  \<^verbatim>\<open>image_url\<close> is a string or an object, which a template literal renders as
  \<^verbatim>\<open>[object Object]\<close>.
\<close>

datatype image_url = UrlString string | UrlObject

datatype message_content_complex =
    TextPart string
  | ImageUrlPart image_url
  | OtherTypePart string
  | UntypedPart

datatype content_part = StringPart string | ComplexPart message_content_complex

datatype message_content =
    ContentString string
  | ContentArray "content_part list"
  | ContentOther bool

fun handleComplexContent :: "message_content_complex \<Rightarrow> string" where
  "handleComplexContent (TextPart text) = text"
| "handleComplexContent (ImageUrlPart (UrlString url)) = ''[Image: '' @ url @ '']''"
| "handleComplexContent (ImageUrlPart UrlObject) = ''[Image: [object Object]]''"
| "handleComplexContent (OtherTypePart t) = []"
| "handleComplexContent UntypedPart = []"

fun joinStrings :: "string \<Rightarrow> string list \<Rightarrow> string" where
  "joinStrings separator [] = []"
| "joinStrings separator [s] = s"
| "joinStrings separator (s # t # rest) = s @ separator @ joinStrings separator (t # rest)"

fun convertMessageContentToString :: "message_content \<Rightarrow> string" where
  "convertMessageContentToString (ContentString text) = text"
| "convertMessageContentToString (ContentArray parts) =
     joinStrings '' ''
       (filter (\<lambda>s. s \<noteq> [])
         (map (\<lambda>item. case item of StringPart s \<Rightarrow> s | ComplexPart c \<Rightarrow> handleComplexContent c)
            parts))"
| "convertMessageContentToString (ContentOther _) = []"

fun truthyContent :: "message_content \<Rightarrow> bool" where
  "truthyContent (ContentString s) = (s \<noteq> [])"
| "truthyContent (ContentArray _) = True"
| "truthyContent (ContentOther b) = b"

text \<open>
  What \<^verbatim>\<open>graph.stream\<close> yields in the mode \<^verbatim>\<open>messages\<close>: a message that is an AI
  message chunk, with its content, or a message of another kind. The iteration yields
  what is in \<open>yielded\<close> and then ends, or throws what \<open>thrown\<close> holds.
\<close>

datatype stream_item =
    isAIMessageChunk: AIMessageChunk (chunkContent: message_content)
  | OtherMessage

record graph_response =
  yielded :: "stream_item list"
  thrown :: "js_thrown option"

text \<open>
  The events the handler writes, each named after the statement that writes it, and the
  text of each (an \<open>ApiErrorEvent\<close> carries the JSON text of its object). The writer's
  calls are recorded in order. A call may reject (the client has gone): \<open>writer\<close> says,
  from the calls made so far, whether the next one does.
\<close>

datatype event = DataEvent string | DoneEvent | ErrorEvent string | ApiErrorEvent string

fun frame :: "event \<Rightarrow> string" where
  "frame (DataEvent contentToSend) = ''data: '' @ contentToSend @ ''\<newline>\<newline>''"
| "frame DoneEvent = ''data: [DONE]\<newline>\<newline>''"
| "frame (ErrorEvent errorMessage) = ''data: Error: '' @ errorMessage @ ''\<newline>\<newline>''"
| "frame (ApiErrorEvent jsonText) = ''data: '' @ jsonText @ ''\<newline>\<newline>''"

datatype writer_call = Write event | Close

type_synonym writer = "writer_call list \<Rightarrow> writer_call \<Rightarrow> js_thrown option"

record stream_state =
  isStreamClosed :: bool
  calls :: "writer_call list"

definition writerCall :: "writer \<Rightarrow> writer_call \<Rightarrow> stream_state \<Rightarrow> js_thrown option \<times> stream_state" where
  "writerCall w c st = (w (calls st) c, st\<lparr>calls := calls st @ [c]\<rparr>)"

text \<open>
  The block that occurs three times in \<^verbatim>\<open>handleChatStream\<close>: write a last event, close,
  then set the flag. A rejected call throws out of the block, the flag unset.
\<close>

definition writeAndClose :: "writer \<Rightarrow> event \<Rightarrow> stream_state \<Rightarrow> js_thrown option \<times> stream_state" where
  "writeAndClose w ev st =
     (case writerCall w (Write ev) st of
        (Some error, st1) \<Rightarrow> (Some error, st1)
      | (None, st1) \<Rightarrow>
          (case writerCall w Close st1 of
             (Some error, st2) \<Rightarrow> (Some error, st2)
           | (None, st2) \<Rightarrow> (None, st2\<lparr>isStreamClosed := True\<rparr>)))"

text \<open>
  \<^verbatim>\<open>message.content ? convertMessageContentToString(message.content) : ""\<close>
\<close>

definition contentToSendOf :: "message_content \<Rightarrow> string" where
  "contentToSendOf messageContent =
     (if truthyContent messageContent then convertMessageContentToString messageContent else [])"

text \<open>The \<^verbatim>\<open>for await\<close> loop; the result says whether it threw.\<close>

fun streamLoop ::
  "writer \<Rightarrow> stream_item list \<Rightarrow> js_thrown option \<Rightarrow> stream_state \<Rightarrow> js_thrown option \<times> stream_state" where
  "streamLoop w [] atEnd st = (atEnd, st)"
| "streamLoop w (message # rest) atEnd st =
     (if isStreamClosed st then (None, st)
      else if \<not> isAIMessageChunk message
      then (if \<not> isStreamClosed st then writeAndClose w DoneEvent st else (None, st))
      else
        let contentToSend = contentToSendOf (chunkContent message)
        in if contentToSend \<noteq> [] \<and> \<not> isStreamClosed st
           then (case writerCall w (Write (DataEvent contentToSend)) st of
                   (Some error, st1) \<Rightarrow> (Some error, st1)
                 | (None, st1) \<Rightarrow> streamLoop w rest atEnd st1)
           else streamLoop w rest atEnd st)"

text \<open>The \<^verbatim>\<open>try\<close> block of the asynchronous task: the loop, then the normal completion.\<close>

definition streamTry :: "writer \<Rightarrow> graph_response \<Rightarrow> stream_state \<Rightarrow> js_thrown option \<times> stream_state" where
  "streamTry w response st =
     (case streamLoop w (yielded response) (thrown response) st of
        (Some error, st1) \<Rightarrow> (Some error, st1)
      | (None, st1) \<Rightarrow>
          if \<not> isStreamClosed st1 then writeAndClose w DoneEvent st1 else (None, st1))"

text \<open>
  The asynchronous task with its \<^verbatim>\<open>catch\<close>. A first component \<open>Some error\<close> is a
  rejection of the task itself: a writer call rejected inside the \<^verbatim>\<open>catch\<close> block.
\<close>

definition streamTask :: "writer \<Rightarrow> graph_response \<Rightarrow> stream_state \<Rightarrow> js_thrown option \<times> stream_state" where
  "streamTask w response st =
     (case streamTry w response st of
        (None, st1) \<Rightarrow> (None, st1)
      | (Some error, st1) \<Rightarrow>
          if \<not> isStreamClosed st1
          then writeAndClose w (ErrorEvent (errorMessageOf error)) st1
          else (None, st1))"


section \<open>Session registry (src/lib/graph.ts)\<close>

text \<open>
  The module's surroundings, for one request: the identifier \<^verbatim>\<open>uuidv4()\<close> returns,
  the time \<^verbatim>\<open>Date.now()\<close> returns, whether \<^verbatim>\<open>initializeGraph\<close> throws, what
  \<^verbatim>\<open>graph.stream\<close> does with a message and a thread id (it returns what the iteration
  will yield, or throws), and the JSON text \<^verbatim>\<open>JSON.stringify\<close> gives for the object
  \<^verbatim>\<open>{ error: errorMessage }\<close>.
\<close>

record environment =
  uuidv4 :: string
  dateNow :: int
  initializeGraph :: "js_thrown option"
  graphStream :: "string \<Rightarrow> string \<Rightarrow> js_thrown + graph_response"
  stringifyError :: "string \<Rightarrow> string"

type_synonym active_threads = "string \<rightharpoonup> int"

text \<open>
  \<^verbatim>\<open>existingThreadId\<close> is optional; an empty string is falsy like \<^verbatim>\<open>undefined\<close>.
  The result is the thread id of the returned configuration, or what
  \<^verbatim>\<open>initializeGraph\<close> threw, and the map \<^verbatim>\<open>activeThreads\<close> afterwards.
\<close>

definition truthyString :: "string option \<Rightarrow> bool" where
  "truthyString s = (case s of None \<Rightarrow> False | Some v \<Rightarrow> v \<noteq> [])"

definition createOrGetConversation ::
  "environment \<Rightarrow> string option \<Rightarrow> active_threads \<Rightarrow> (js_thrown + string) \<times> active_threads" where
  "createOrGetConversation env existingThreadId activeThreads =
     (if truthyString existingThreadId \<and> the existingThreadId \<in> dom activeThreads
      then ((case initializeGraph env of
               Some error \<Rightarrow> Inl error
             | None \<Rightarrow> Inr (the existingThreadId)),
            activeThreads)
      else
        let threadId = (if truthyString existingThreadId then the existingThreadId else uuidv4 env);
            activeThreads' = activeThreads(threadId \<mapsto> dateNow env)
        in ((case initializeGraph env of
               Some error \<Rightarrow> Inl error
             | None \<Rightarrow> Inr threadId),
            activeThreads'))"

section \<open>The request handlers\<close>

datatype http_response = EventStream | JsonError nat string

definition initialStreamState :: stream_state where
  "initialStreamState = \<lparr>isStreamClosed = False, calls = []\<rparr>"

text \<open>
  The outer \<^verbatim>\<open>catch\<close> of \<^verbatim>\<open>handleChatStream\<close>. It is reached before the response is
  made, so the readable side of the stream has not been handed to anything that reads
  it. A \<^verbatim>\<open>TransformStream\<close> holds a write back until its readable side is read, so
  the awaited write never settles: the call is made, and the handler goes no further.
  It does not close, and it does not answer; \<open>None\<close> is a handler that never returns.
\<close>

definition apiError :: "environment \<Rightarrow> js_thrown \<Rightarrow> stream_state \<Rightarrow>
    http_response option \<times> stream_state" where
  "apiError env error st =
     (if \<not> isStreamClosed st
      then (None,
            st\<lparr>calls := calls st
                   @ [Write (ApiErrorEvent (stringifyError env (errorMessageOf error)))]\<rparr>)
      else (Some (JsonError 500 (errorMessageOf error)), st))"

text \<open>
  \<^verbatim>\<open>handleChatStream\<close>. The response is returned while the task still runs; the
  result holds the response, the writer's state when the task is over, and the registry.
\<close>

definition handleChatStream ::
  "writer \<Rightarrow> environment \<Rightarrow> string \<Rightarrow> string \<Rightarrow> active_threads \<Rightarrow>
     http_response option \<times> stream_state \<times> active_threads" where
  "handleChatStream w env userMessage threadId activeThreads =
     (case createOrGetConversation env (Some threadId) activeThreads of
        (Inl error, activeThreads') \<Rightarrow>
          (case apiError env error initialStreamState of
             (r, st) \<Rightarrow> (r, st, activeThreads'))
      | (Inr thread_id, activeThreads') \<Rightarrow>
          (case graphStream env userMessage thread_id of
             Inl error \<Rightarrow>
               (case apiError env error initialStreamState of
                  (r, st) \<Rightarrow> (r, st, activeThreads'))
           | Inr response \<Rightarrow>
               (Some EventStream, snd (streamTask w response initialStreamState),
                activeThreads')))"

text \<open>
  The handlers \<^verbatim>\<open>GET\<close> and \<^verbatim>\<open>POST\<close> either answer themselves or end in the call
  \<^verbatim>\<open>handleChatStream(message, threadId)\<close>, which is where the stream is created, the
  registry is touched and the graph is run: \<open>Respond\<close> is an answer without that call.
  A query parameter is a string or \<^verbatim>\<open>null\<close>. The body of a POST is what
  \<^verbatim>\<open>request.json()\<close> gives: a JSON value, or a thrown error when the body does not
  parse. Reading a property of \<^verbatim>\<open>null\<close> throws; of any other value that is not an
  object, it gives \<^verbatim>\<open>undefined\<close>. An object lists its properties, every key once.
\<close>

datatype json =
    JNull
  | JBool bool
  | JNumber int
  | JString string
  | JArray "json list"
  | JObject "(string \<times> json) list"

datatype route_result = Respond http_response | CallHandleChatStream json json

record get_request =
  messageParam :: "string option"
  threadIdParam :: "string option"

definition GET :: "get_request \<Rightarrow> route_result" where
  "GET request =
     (let message = messageParam request; threadId = threadIdParam request
      in if \<not> truthyString message \<or> \<not> truthyString threadId
         then Respond (JsonError 400 ''Message and threadId are required'')
         else CallHandleChatStream (JString (the message)) (JString (the threadId)))"

fun truthy :: "json option \<Rightarrow> bool" where
  "truthy None = False"
| "truthy (Some JNull) = False"
| "truthy (Some (JBool b)) = b"
| "truthy (Some (JNumber n)) = (n \<noteq> 0)"
| "truthy (Some (JString s)) = (s \<noteq> [])"
| "truthy (Some (JArray _)) = True"
| "truthy (Some (JObject _)) = True"

fun getProperty :: "json \<Rightarrow> string \<Rightarrow> js_thrown + json option" where
  "getProperty JNull key = Inl (ErrorObject (''Cannot read properties of null (reading '' @ key @ '')''))"
| "getProperty (JObject properties) key = Inr (map_of properties key)"
| "getProperty _ key = Inr None"

definition POST :: "js_thrown + json \<Rightarrow> route_result" where
  "POST requestJson =
     (case requestJson of
        Inl error \<Rightarrow> Respond (JsonError 500 ''Internal server error'')
      | Inr body \<Rightarrow>
          (case getProperty body ''message'' of
             Inl error \<Rightarrow> Respond (JsonError 500 ''Internal server error'')
           | Inr message \<Rightarrow>
               (case getProperty body ''threadId'' of
                  Inl error \<Rightarrow> Respond (JsonError 500 ''Internal server error'')
                | Inr threadId \<Rightarrow>
                    if \<not> truthy message \<or> \<not> truthy threadId
                    then Respond (JsonError 400 ''Message and threadId are required'')
                    else CallHandleChatStream (the message) (the threadId))))"


section \<open>Retrieval-augmented responder (src/lib/agent.ts)\<close>

text \<open>
  The values a metadata record of the index holds: a string, a boolean, a number or an
  array of strings; a field may be missing. \<open>truthyValue\<close> is JavaScript's truthiness
  of a field, and \<open>orNA\<close> is \<^verbatim>\<open>field || 'N/A'\<close>.
\<close>

datatype metadata_value =
    MString string
  | MBoolean bool
  | MNumber int
  | MStringArray "string list"

type_synonym record_metadata = "string \<rightharpoonup> metadata_value"

fun truthyValue :: "metadata_value option \<Rightarrow> bool" where
  "truthyValue None = False"
| "truthyValue (Some (MString s)) = (s \<noteq> [])"
| "truthyValue (Some (MBoolean b)) = b"
| "truthyValue (Some (MNumber n)) = (n \<noteq> 0)"
| "truthyValue (Some (MStringArray _)) = True"

definition orNA :: "metadata_value option \<Rightarrow> metadata_value" where
  "orNA field = (if truthyValue field then the field else MString ''N/A'')"

text \<open>
  \<^verbatim>\<open>toLowerCase\<close>: below 256 the letters with a lower case are A to Z and U+00C0 to
  U+00DE without the multiplication sign U+00D7, each 32 below its lower case.
  \<^verbatim>\<open>includes\<close> is the search for a substring.
\<close>

definition toLowerCaseChar :: "char \<Rightarrow> char" where
  "toLowerCaseChar c =
     (if (65 \<le> (of_char c :: nat) \<and> (of_char c :: nat) \<le> 90)
         \<or> (192 \<le> (of_char c :: nat) \<and> (of_char c :: nat) \<le> 222 \<and> (of_char c :: nat) \<noteq> 215)
      then char_of ((of_char c :: nat) + 32) else c)"

definition toLowerCase :: "string \<Rightarrow> string" where
  "toLowerCase s = map toLowerCaseChar s"

fun "includes" :: "string \<Rightarrow> string \<Rightarrow> bool" where
  "includes [] searchString = (searchString = [])"
| "includes (c # cs) searchString =
     (startsWith (c # cs) searchString \<or> includes cs searchString)"

text \<open>
  The industries of a company: the array is joined and split at the commas, every
  piece trimmed, its words (split at the hyphens) capitalised and joined by a blank.
  \<open>toUpperCase\<close> stands for the method of that name, which can lengthen a string and
  leave the code units below 256: \<open>capitalize\<close> is
  \<^verbatim>\<open>word.charAt(0).toUpperCase() + word.slice(1)\<close>.
\<close>

definition capitalize :: "(string \<Rightarrow> string) \<Rightarrow> string \<Rightarrow> string" where
  "capitalize toUpperCase word = toUpperCase (take 1 word) @ drop 1 word"

definition formatIndustries :: "(string \<Rightarrow> string) \<Rightarrow> string list \<Rightarrow> string" where
  "formatIndustries toUpperCase industries =
     joinStrings '', ''
       (map (\<lambda>i. joinStrings '' '' (map (capitalize toUpperCase) (splitString i ''-'')))
         (map trim (splitString (joinStrings '','' industries) '','')))"

text \<open>
  A match of the index: its score and its metadata, which may be missing. The formatted
  record of a match, by its type. The score is shown through \<open>toFixed2\<close>, which stands
  for \<^verbatim>\<open>(match.score * 100).toFixed(2)\<close>.
\<close>

record 's scored_match =
  score :: 's
  metadata :: "record_metadata option"

datatype formatted_result =
    CompanyResult metadata_value metadata_value metadata_value metadata_value
      metadata_value metadata_value string
  | ApplicationResult metadata_value metadata_value metadata_value metadata_value
      metadata_value string

text \<open>
  \<^verbatim>\<open>metadata.qa_pairs ? metadata.qa_pairs.slice(0, 3) : []\<close>: a string and an array
  have \<^verbatim>\<open>slice\<close>; a truthy number or boolean has not, and the call throws.
\<close>

fun sliceQaPairs :: "metadata_value option \<Rightarrow> js_thrown + metadata_value" where
  "sliceQaPairs (Some (MString s)) =
     (if s = [] then Inr (MStringArray []) else Inr (MString (take 3 s)))"
| "sliceQaPairs (Some (MStringArray xs)) = Inr (MStringArray (take 3 xs))"
| "sliceQaPairs field =
     (if truthyValue field
      then Inl (ErrorObject ''metadata.qa_pairs.slice is not a function'')
      else Inr (MStringArray []))"

definition formatMatch ::
  "('s \<Rightarrow> string) \<Rightarrow> (string \<Rightarrow> string) \<Rightarrow> 's scored_match \<Rightarrow> js_thrown + formatted_result" where
  "formatMatch toFixed2 toUpperCase match =
     (case metadata match of
        None \<Rightarrow> Inl (ErrorObject ''Cannot read properties of undefined (reading 'type')'')
      | Some md \<Rightarrow>
          if md ''type'' = Some (MString ''company'')
          then Inr (CompanyResult
                 (orNA (md ''name''))
                 (orNA (md ''description''))
                 (orNA (md ''batch''))
                 (orNA (md ''founded_date''))
                 (case md ''industries'' of
                    Some (MStringArray industries) \<Rightarrow>
                      MString (formatIndustries toUpperCase industries)
                  | field \<Rightarrow> orNA field)
                 (case md ''founders'' of
                    Some (MStringArray founders) \<Rightarrow> MString (joinStrings '', '' founders)
                  | field \<Rightarrow> orNA field)
                 (toFixed2 (score match)))
          else
            (case sliceQaPairs (md ''qa_pairs'') of
               Inl error \<Rightarrow> Inl error
             | Inr qa_pairs \<Rightarrow>
                 Inr (ApplicationResult
                   (orNA (md ''company_name''))
                   (orNA (md ''description''))
                   (orNA (md ''batch''))
                   (orNA (md ''status''))
                   qa_pairs
                   (toFixed2 (score match)))))"

text \<open>The \<^verbatim>\<open>map\<close> over the matches: the first callback that throws ends it.\<close>

fun formatResults ::
  "('s \<Rightarrow> string) \<Rightarrow> (string \<Rightarrow> string) \<Rightarrow> 's scored_match list \<Rightarrow>
     js_thrown + formatted_result list" where
  "formatResults toFixed2 toUpperCase [] = Inr []"
| "formatResults toFixed2 toUpperCase (match # rest) =
     (case formatMatch toFixed2 toUpperCase match of
        Inl error \<Rightarrow> Inl error
      | Inr formatted \<Rightarrow>
          (case formatResults toFixed2 toUpperCase rest of
             Inl error \<Rightarrow> Inl error
           | Inr formattedRest \<Rightarrow> Inr (formatted # formattedRest)))"

text \<open>
  The services of one invocation. Every request to a service returns or throws:
  \<open>embedQuery\<close> is the first embedding of the query and \<open>embedQueryAgain\<close> the one
  started together with the index query; \<open>indexQuery\<close> takes the vector, \<^verbatim>\<open>topK\<close> and
  the type of the filter; \<open>formatPrompt\<close> renders the template from the history, the
  query and the results; \<open>llmInvoke\<close> is the completion. The three \<open>stringify\<close> fields
  stand for \<^verbatim>\<open>JSON.stringify\<close>, and \<open>toFixed2\<close> and \<open>toUpperCase\<close> for the methods of
  numbers and strings.
\<close>

record 's query_response =
  matches :: "'s scored_match list option"

record ('v, 's) services =
  embedQuery :: "string \<Rightarrow> js_thrown + 'v"
  embedQueryAgain :: "string \<Rightarrow> js_thrown + 'v"
  indexQuery :: "'v \<Rightarrow> nat \<Rightarrow> string \<Rightarrow> js_thrown + 's query_response"
  toFixed2 :: "'s \<Rightarrow> string"
  toUpperCase :: "string \<Rightarrow> string"
  stringifyResults :: "formatted_result list \<Rightarrow> string"
  stringifyResultsIndented :: "formatted_result list \<Rightarrow> string"
  formatPrompt :: "string \<Rightarrow> string \<Rightarrow> string \<Rightarrow> js_thrown + string"
  llmInvoke :: "string \<Rightarrow> js_thrown + message_content"
  stringifyContent :: "message_content \<Rightarrow> string"

datatype service_call =
    EmbedQueryCall string
  | IndexQueryCall nat string
  | LlmInvokeCall string

text \<open>
  The messages of the history, with their content as a string; the state
  \<^verbatim>\<open>invoke\<close> receives; and the object it returns, whose keys \<^verbatim>\<open>chat_history\<close>,
  \<^verbatim>\<open>context\<close> and \<^verbatim>\<open>answer\<close> are the fields \<open>new_chat_history\<close>, \<open>new_context\<close> and
  \<open>answer\<close>: the messages it returns are what the reducer of the graph state adds to
  the history.
\<close>

datatype base_message = HumanMessage string | AIMessage string | OtherBaseMessage string

record graph_state =
  input :: string
  chat_history :: "base_message list"

record invoke_result =
  new_chat_history :: "base_message list"
  new_context :: string
  answer :: string

definition typeFilterOf :: "string \<Rightarrow> string" where
  "typeFilterOf query =
     (if includes (toLowerCase query) ''application'' then ''application'' else ''company'')"

text \<open>
  The retrieval of \<^verbatim>\<open>invoke\<close>: the query is embedded, then the index query and a
  second embedding are started and awaited together (\<^verbatim>\<open>Promise.all\<close> rejects when
  either does). The second component lists the requests made.
\<close>

definition vectorSearch ::
  "('v, 's) services \<Rightarrow> string \<Rightarrow> (js_thrown + 's query_response) \<times> service_call list" where
  "vectorSearch svc query =
     (case embedQuery svc query of
        Inl error \<Rightarrow> (Inl error, [EmbedQueryCall query])
      | Inr queryEmbedding \<Rightarrow>
          let typeFilter = typeFilterOf query;
              requests = [EmbedQueryCall query, IndexQueryCall 2 typeFilter, EmbedQueryCall query]
          in (case indexQuery svc queryEmbedding 2 typeFilter of
                Inl error \<Rightarrow> (Inl error, requests)
              | Inr results \<Rightarrow>
                  (case embedQueryAgain svc query of
                     Inl error \<Rightarrow> (Inl error, requests)
                   | Inr _ \<Rightarrow> (Inr results, requests))))"

definition renderChatHistory :: "base_message list \<Rightarrow> string" where
  "renderChatHistory history =
     joinStrings ''\<newline>''
       (map (\<lambda>m. case m of
                    HumanMessage text \<Rightarrow> ''Human: '' @ text
                  | AIMessage text \<Rightarrow> ''Assistant: '' @ text
                  | OtherBaseMessage text \<Rightarrow> text)
          history)"

definition noResultsMessage :: string where
  "noResultsMessage = ''No matching results found in the database.''"

definition errorMsg :: string where
  "errorMsg = ''Sorry, I encountered an error while searching the database. Please try again.''"

text \<open>The \<^verbatim>\<open>try\<close> block of \<^verbatim>\<open>invoke\<close>: what it returns or throws, and the requests made.\<close>

definition invokeTry ::
  "('v, 's) services \<Rightarrow> graph_state \<Rightarrow> (js_thrown + invoke_result) \<times> service_call list" where
  "invokeTry svc state =
     (let query = input state
      in case vectorSearch svc query of
           (Inl error, requests) \<Rightarrow> (Inl error, requests)
         | (Inr searchResults, requests) \<Rightarrow>
             (case matches searchResults of
                None \<Rightarrow>
                  (Inr \<lparr>new_chat_history = [HumanMessage query, AIMessage noResultsMessage],
                        new_context = [], answer = noResultsMessage\<rparr>, requests)
              | Some [] \<Rightarrow>
                  (Inr \<lparr>new_chat_history = [HumanMessage query, AIMessage noResultsMessage],
                        new_context = [], answer = noResultsMessage\<rparr>, requests)
              | Some (m # ms) \<Rightarrow>
                  (case formatResults (toFixed2 svc) (toUpperCase svc) (m # ms) of
                     Inl error \<Rightarrow> (Inl error, requests)
                   | Inr formattedResults \<Rightarrow>
                       (case formatPrompt svc (renderChatHistory (chat_history state)) query
                               (stringifyResultsIndented svc formattedResults) of
                          Inl error \<Rightarrow> (Inl error, requests)
                        | Inr prompt \<Rightarrow>
                            (case llmInvoke svc prompt of
                               Inl error \<Rightarrow> (Inl error, requests @ [LlmInvokeCall prompt])
                             | Inr llmContent \<Rightarrow>
                                 let answer' =
                                       (case llmContent of
                                          ContentString text \<Rightarrow> text
                                        | _ \<Rightarrow> stringifyContent svc llmContent)
                                 in (Inr \<lparr>new_chat_history =
                                             [HumanMessage query, AIMessage answer'],
                                           new_context = stringifyResults svc formattedResults,
                                           answer = answer'\<rparr>,
                                     requests @ [LlmInvokeCall prompt]))))))"

text \<open>\<^verbatim>\<open>invoke\<close> with its \<^verbatim>\<open>catch\<close>: it always returns.\<close>

definition invoke ::
  "('v, 's) services \<Rightarrow> graph_state \<Rightarrow> invoke_result \<times> service_call list" where
  "invoke svc state =
     (case invokeTry svc state of
        (Inr result, requests) \<Rightarrow> (result, requests)
      | (Inl error, requests) \<Rightarrow>
          (\<lparr>new_chat_history = [HumanMessage (input state), AIMessage errorMsg],
            new_context = [], answer = errorMsg\<rparr>, requests))"


section \<open>Theorems about checkpoint reconstruction\<close>

lemma sameMessage_eq: "sameMessage a b \<longleftrightarrow> a = b"
  by (cases a, cases b) (auto simp: sameMessage_def)

text \<open>
  The index-based filter, started in the middle of the array: past a non-empty prefix it
  keeps exactly what collapsing runs keeps after the prefix's last message.
\<close>

lemma keep_after_prefix:
  "pre \<noteq> [] \<Longrightarrow>
   map snd (filter (keepMessage (pre @ xs)) (enumerate (length pre) xs))
     = tl (remdups_adj (last pre # xs))"
proof (induction xs arbitrary: pre)
  case Nil
  then show ?case by simp
next
  case (Cons x xs)
  from Cons.IH[of "pre @ [x]"] have IH:
    "map snd (filter (keepMessage (pre @ x # xs)) (enumerate (Suc (length pre)) xs))
      = tl (remdups_adj (x # xs))" by simp
  from Cons.prems have k: "keepMessage (pre @ x # xs) (length pre, x) \<longleftrightarrow> last pre \<noteq> x"
    by (simp add: keepMessage_def sameMessage_eq nth_append last_conv_nth)
  show ?case using IH k by (cases xs) auto
qed

lemma dropConsecutiveDuplicates_eq: "dropConsecutiveDuplicates xs = remdups_adj xs"
proof (cases xs)
  case Nil
  then show ?thesis by (simp add: dropConsecutiveDuplicates_def)
next
  case (Cons x ys)
  have "keepMessage (x # ys) (0, x)" by (simp add: keepMessage_def)
  moreover have "map snd (filter (keepMessage ([x] @ ys)) (enumerate (length [x]) ys))
      = tl (remdups_adj (last [x] # ys))"
    by (rule keep_after_prefix) simp
  ultimately show ?thesis using Cons by (simp add: dropConsecutiveDuplicates_def)
qed

lemma subseq_remdups_adj_map:
  "\<exists>cs. subseq cs xs \<and> map g cs = remdups_adj (map g xs)"
proof (induction xs)
  case Nil
  then show ?case by simp
next
  case (Cons x xs)
  then obtain cs where cs: "subseq cs xs" "map g cs = remdups_adj (map g xs)" by blast
  show ?case
  proof (cases xs)
    case Nil
    then show ?thesis by (intro exI[of _ "[x]"]) simp
  next
    case (Cons y ys)
    show ?thesis
    proof (cases "g x = g y")
      case True
      then show ?thesis using cs Cons by (intro exI[of _ cs]) auto
    next
      case False
      then show ?thesis using cs Cons by (intro exI[of _ "x # cs"]) simp
    qed
  qed
qed

lemma subseq_sorted_map: "subseq xs ys \<Longrightarrow> sorted (map f ys) \<Longrightarrow> sorted (map f xs)"
  by (metis nths_map sorted_nths subseq_conv_nths)

lemma subseq_mset_le: "subseq xs ys \<Longrightarrow> mset xs \<subseteq># mset ys"
  by (induction rule: list_emb.induct) (auto intro: subset_mset.order_trans)

lemma subseq_set_le: "subseq xs ys \<Longrightarrow> set xs \<subseteq> set ys"
  by (induction rule: list_emb.induct) auto

lemma reconstruct_origins:
  "\<exists>cs. mset cs \<subseteq># mset cps \<and> sorted (map step cs) \<and>
     map parseCheckpointMetadata cs = map Some (loadMessages cps)"
proof -
  let ?S = "sort_key step cps"
  let ?F = "filter (\<lambda>c. parseCheckpointMetadata c \<noteq> None) ?S"
  let ?g = "\<lambda>c. the (parseCheckpointMetadata c)"
  have pm: "parsedMessages cps = map ?g ?F"
    by (simp add: parsedMessages_def filter_map comp_def)
  obtain cs where cs: "subseq cs ?F" "map ?g cs = remdups_adj (map ?g ?F)"
    using subseq_remdups_adj_map[of ?F ?g] by blast
  have sub: "subseq cs ?S"
    using cs(1) subseq_filter_left subseq_order.order_trans by blast
  have "mset cs \<subseteq># mset cps" using subseq_mset_le[OF sub] by simp
  moreover have "sorted (map step cs)" by (rule subseq_sorted_map[OF sub]) simp
  moreover have "\<forall>c\<in>set cs. parseCheckpointMetadata c \<noteq> None"
    using subseq_set_le[OF cs(1)] by auto
  then have "map parseCheckpointMetadata cs = map Some (map ?g cs)"
    by (induction cs) auto
  then have "map parseCheckpointMetadata cs = map Some (loadMessages cps)"
    by (simp add: loadMessages_def dropConsecutiveDuplicates_eq pm cs(2))
  ultimately show ?thesis by blast
qed

text \<open>
  An example: of two equal neighbours the second goes; the equal message further on stays.
\<close>

lemma dropConsecutiveDuplicates_example:
  "dropConsecutiveDuplicates
     [\<lparr>role = User, content = ''hi''\<rparr>, \<lparr>role = User, content = ''hi''\<rparr>,
      \<lparr>role = Assistant, content = ''hello''\<rparr>, \<lparr>role = User, content = ''hi''\<rparr>]
   = [\<lparr>role = User, content = ''hi''\<rparr>, \<lparr>role = Assistant, content = ''hello''\<rparr>,
      \<lparr>role = User, content = ''hi''\<rparr>]"
  by (simp add: dropConsecutiveDuplicates_def keepMessage_def sameMessage_def enumerate_eq_zip)

text \<open>
  C7. Whatever checkpoints are loaded, no two neighbours in the reconstructed message list
  have both the same role and the same content; and the list is the parsed sequence (in
  step order) with every run of equal neighbours collapsed to its first message, nothing
  else removed, so a message equal to an earlier one that is not its neighbour stays.
\<close>

theorem loadMessages_no_adjacent_duplicates:
  "successively (\<lambda>a b. \<not> (role a = role b \<and> content a = content b)) (loadMessages checkpoints)
   \<and> loadMessages checkpoints = remdups_adj (parsedMessages checkpoints)"
proof -
  have differ: "(\<lambda>a b :: message. \<not> (role a = role b \<and> content a = content b)) = (\<noteq>)"
    using sameMessage_eq by (auto simp: fun_eq_iff sameMessage_def)
  have collapsed: "loadMessages checkpoints = remdups_adj (parsedMessages checkpoints)"
    by (simp add: loadMessages_def dropConsecutiveDuplicates_eq)
  have "distinct_adj (remdups_adj (parsedMessages checkpoints))" by simp
  then have "successively (\<noteq>) (loadMessages checkpoints)"
    by (simp only: collapsed distinct_adj_def)
  then show ?thesis unfolding differ using collapsed by blast
qed

text \<open>With distinct keys, sorting forgets the order of its input.\<close>

lemma filter_key_distinct:
  "distinct (map f xs) \<Longrightarrow> k \<in> set xs \<Longrightarrow> filter (\<lambda>x. f k = f x) xs = [k]"
proof (induction xs)
  case Nil
  then show ?case by simp
next
  case (Cons x xs)
  show ?case
  proof (cases "x = k")
    case True
    with Cons.prems have "\<forall>y\<in>set xs. f k \<noteq> f y" by auto
    then have "filter (\<lambda>x. f k = f x) xs = []" by (simp add: filter_empty_conv)
    with True show ?thesis by simp
  next
    case False
    with Cons.prems have k: "k \<in> set xs" by simp
    with Cons.prems have "f k \<noteq> f x" by (metis distinct.simps(2) image_eqI list.simps(9) set_map)
    with Cons.IH k Cons.prems show ?thesis by simp
  qed
qed

lemma sort_key_permutation:
  assumes "mset xs = mset ys" "distinct (map f ys)"
  shows "sort_key f xs = sort_key f ys"
proof (rule properties_for_sort_key)
  show "mset (sort_key f ys) = mset xs" using assms(1) by simp
  show "sorted (map f (sort_key f ys))" by simp
  have dx: "distinct (map f xs)"
    using assms by (metis distinct_map mset_eq_imp_distinct_iff mset_eq_setD)
  have ds: "distinct (map f (sort_key f ys))"
    using assms(2) by (metis distinct_map mset_eq_imp_distinct_iff mset_eq_setD mset_sort)
  show "filter (\<lambda>x. f k = f x) (sort_key f ys) = filter (\<lambda>x. f k = f x) xs"
    if "k \<in> set (sort_key f ys)" for k
  proof -
    from that have "k \<in> set xs" using assms(1) mset_eq_setD by fastforce
    with dx have "filter (\<lambda>x. f k = f x) xs = [k]" by (rule filter_key_distinct)
    moreover from ds that have "filter (\<lambda>x. f k = f x) (sort_key f ys) = [k]"
      by (rule filter_key_distinct)
    ultimately show ?thesis by simp
  qed
qed

text \<open>
  C8. In whatever order the checkpoints are supplied (any list with the same multiset of
  checkpoints), the reconstructed messages are, one for one and in order, the messages
  parsed from a selection of those checkpoints whose steps ascend; and when no two
  checkpoints have the same step, the reconstructed messages do not depend on the order
  of supply at all.
\<close>

theorem loadMessages_ascending_steps:
  assumes "mset supplied = mset checkpoints"
  shows "(\<exists>origins. mset origins \<subseteq># mset checkpoints \<and> sorted (map step origins) \<and>
            map parseCheckpointMetadata origins = map Some (loadMessages supplied))
       \<and> (distinct (map step checkpoints) \<longrightarrow> loadMessages supplied = loadMessages checkpoints)"
proof -
  have "loadMessages supplied = loadMessages checkpoints" if "distinct (map step checkpoints)"
    using sort_key_permutation[OF assms that] by (simp add: loadMessages_def parsedMessages_def)
  with reconstruct_origins[of supplied] assms show ?thesis by simp
qed

theorem loadMessages_ascending_steps_witness:
  "mset [\<lparr>step = 2, source = ''loop'', writes = Some [(''ycKnowledge'', Some \<lparr>sender = ''YCVectorKnowledge'', messages = Some [\<lparr>kwargs = Some \<lparr>kw_content = ''hello''\<rparr>\<rparr>]\<rparr>)]\<rparr>,
         \<lparr>step = 1, source = ''input'', writes = Some [(''__start__'', Some \<lparr>sender = ''user'', messages = Some [\<lparr>kwargs = Some \<lparr>kw_content = ''hi''\<rparr>\<rparr>]\<rparr>)]\<rparr>]
   = mset [\<lparr>step = 1, source = ''input'', writes = Some [(''__start__'', Some \<lparr>sender = ''user'', messages = Some [\<lparr>kwargs = Some \<lparr>kw_content = ''hi''\<rparr>\<rparr>]\<rparr>)]\<rparr>,
           \<lparr>step = 2, source = ''loop'', writes = Some [(''ycKnowledge'', Some \<lparr>sender = ''YCVectorKnowledge'', messages = Some [\<lparr>kwargs = Some \<lparr>kw_content = ''hello''\<rparr>\<rparr>]\<rparr>)]\<rparr>]
  \<and> distinct (map step
         [\<lparr>step = 1, source = ''input'', writes = Some [(''__start__'', Some \<lparr>sender = ''user'', messages = Some [\<lparr>kwargs = Some \<lparr>kw_content = ''hi''\<rparr>\<rparr>]\<rparr>)]\<rparr>,
          \<lparr>step = 2, source = ''loop'', writes = Some [(''ycKnowledge'', Some \<lparr>sender = ''YCVectorKnowledge'', messages = Some [\<lparr>kwargs = Some \<lparr>kw_content = ''hello''\<rparr>\<rparr>]\<rparr>)]\<rparr>])
  \<and> (\<exists>origins. mset origins \<subseteq># mset [\<lparr>step = 1, source = ''input'', writes = Some [(''__start__'', Some \<lparr>sender = ''user'', messages = Some [\<lparr>kwargs = Some \<lparr>kw_content = ''hi''\<rparr>\<rparr>]\<rparr>)]\<rparr>,
           \<lparr>step = 2, source = ''loop'', writes = Some [(''ycKnowledge'', Some \<lparr>sender = ''YCVectorKnowledge'', messages = Some [\<lparr>kwargs = Some \<lparr>kw_content = ''hello''\<rparr>\<rparr>]\<rparr>)]\<rparr>]
        \<and> sorted (map step origins)
        \<and> map parseCheckpointMetadata origins = [Some \<lparr>role = User, content = ''hi''\<rparr>, Some \<lparr>role = Assistant, content = ''hello''\<rparr>])
  \<and> loadMessages [\<lparr>step = 1, source = ''input'', writes = Some [(''__start__'', Some \<lparr>sender = ''user'', messages = Some [\<lparr>kwargs = Some \<lparr>kw_content = ''hi''\<rparr>\<rparr>]\<rparr>)]\<rparr>,
           \<lparr>step = 2, source = ''loop'', writes = Some [(''ycKnowledge'', Some \<lparr>sender = ''YCVectorKnowledge'', messages = Some [\<lparr>kwargs = Some \<lparr>kw_content = ''hello''\<rparr>\<rparr>]\<rparr>)]\<rparr>]
      = [\<lparr>role = User, content = ''hi''\<rparr>, \<lparr>role = Assistant, content = ''hello''\<rparr>]"
proof -
  let ?c1 = "\<lparr>step = 1, source = ''input'', writes = Some [(''__start__'', Some \<lparr>sender = ''user'', messages = Some [\<lparr>kwargs = Some \<lparr>kw_content = ''hi''\<rparr>\<rparr>]\<rparr>)]\<rparr>"
  let ?c2 = "\<lparr>step = 2, source = ''loop'', writes = Some [(''ycKnowledge'', Some \<lparr>sender = ''YCVectorKnowledge'', messages = Some [\<lparr>kwargs = Some \<lparr>kw_content = ''hello''\<rparr>\<rparr>]\<rparr>)]\<rparr>"
  have h: "mset [?c2, ?c1] = mset [?c1, ?c2]" by simp
  have d: "distinct (map step [?c1, ?c2])" by simp
  have l: "loadMessages [?c2, ?c1] = [\<lparr>role = User, content = ''hi''\<rparr>, \<lparr>role = Assistant, content = ''hello''\<rparr>]"
    by (simp add: loadMessages_def parsedMessages_def parseCheckpointMetadata_def
          dropConsecutiveDuplicates_def keepMessage_def sameMessage_def enumerate_eq_zip)
  from loadMessages_ascending_steps[OF h] d
  have "(\<exists>origins. mset origins \<subseteq># mset [?c1, ?c2] \<and> sorted (map step origins) \<and>
            map parseCheckpointMetadata origins = map Some (loadMessages [?c2, ?c1]))"
    and "loadMessages [?c2, ?c1] = loadMessages [?c1, ?c2]"
    by blast+
  with h d l show ?thesis by simp
qed

section \<open>Theorems about summary projection\<close>

lemma foldl_parseSection_discussions:
  "\<forall>section\<in>set sections. \<not> startsWith section ''Discussions till now:'' \<Longrightarrow>
   discussions (foldl parseSection formatted sections) = discussions formatted"
  by (induction sections arbitrary: formatted) (simp_all add: parseSection_def)

lemma foldl_parseSection_lastTask:
  "\<forall>section\<in>set sections. \<not> startsWith section ''Last task or action item assigned:'' \<Longrightarrow>
   lastTask (foldl parseSection formatted sections) = lastTask formatted"
  by (induction sections arbitrary: formatted) (simp_all add: parseSection_def)

lemma foldl_parseSection_context:
  "\<forall>section\<in>set sections. \<not> startsWith section ''Important context for next interactions:'' \<Longrightarrow>
   context (foldl parseSection formatted sections) = context formatted"
  by (induction sections arbitrary: formatted) (simp_all add: parseSection_def)

text \<open>
  C9. The text \<^verbatim>\<open>Discussions till now:\n- A\n- B\<close> is projected to the discussions
  A and B with the two other buckets empty; and for every text, a label that starts none
  of the sections (the pieces between blank lines) leaves its bucket the empty list. The
  function is total: no input makes it fail.
\<close>

theorem parseSummary_sections:
  "parseSummary ''Discussions till now:\<newline>- A\<newline>- B''
     = \<lparr>discussions = [''A'', ''B''], lastTask = [], context = []\<rparr>
   \<and> ((\<forall>section\<in>set (splitString summary ''\<newline>\<newline>'').
          \<not> startsWith section ''Discussions till now:'')
        \<longrightarrow> discussions (parseSummary summary) = [])
   \<and> ((\<forall>section\<in>set (splitString summary ''\<newline>\<newline>'').
          \<not> startsWith section ''Last task or action item assigned:'')
        \<longrightarrow> lastTask (parseSummary summary) = [])
   \<and> ((\<forall>section\<in>set (splitString summary ''\<newline>\<newline>'').
          \<not> startsWith section ''Important context for next interactions:'')
        \<longrightarrow> context (parseSummary summary) = [])"
proof -
  have "parseSummary ''Discussions till now:\<newline>- A\<newline>- B''
     = \<lparr>discussions = [''A'', ''B''], lastTask = [], context = []\<rparr>"
    by (simp add: parseSummary_def splitString_def startsWith_def parseSection_def
        bulletLines_def trim_def isWhiteSpace_def)
  then show ?thesis
    using foldl_parseSection_discussions foldl_parseSection_lastTask foldl_parseSection_context
    by (simp add: parseSummary_def)
qed

theorem parseSummary_sections_witness:
  "splitString ''Notes:\<newline>- x\<newline>\<newline>- y'' ''\<newline>\<newline>'' = [''Notes:\<newline>- x'', ''- y'']
   \<and> \<not> startsWith ''Notes:\<newline>- x'' ''Discussions till now:''
   \<and> \<not> startsWith ''- y'' ''Discussions till now:''
   \<and> \<not> startsWith ''Notes:\<newline>- x'' ''Last task or action item assigned:''
   \<and> \<not> startsWith ''- y'' ''Last task or action item assigned:''
   \<and> \<not> startsWith ''Notes:\<newline>- x'' ''Important context for next interactions:''
   \<and> \<not> startsWith ''- y'' ''Important context for next interactions:''
   \<and> parseSummary ''Notes:\<newline>- x\<newline>\<newline>- y'' = \<lparr>discussions = [], lastTask = [], context = []\<rparr>"
proof -
  have sections: "splitString ''Notes:\<newline>- x\<newline>\<newline>- y'' ''\<newline>\<newline>'' = [''Notes:\<newline>- x'', ''- y'']"
    by (simp add: splitString_def startsWith_def)
  have absent: "\<not> startsWith ''Notes:\<newline>- x'' ''Discussions till now:''
      \<and> \<not> startsWith ''- y'' ''Discussions till now:''
      \<and> \<not> startsWith ''Notes:\<newline>- x'' ''Last task or action item assigned:''
      \<and> \<not> startsWith ''- y'' ''Last task or action item assigned:''
      \<and> \<not> startsWith ''Notes:\<newline>- x'' ''Important context for next interactions:''
      \<and> \<not> startsWith ''- y'' ''Important context for next interactions:''"
    by (simp add: startsWith_def)
  from parseSummary_sections[of "''Notes:\<newline>- x\<newline>\<newline>- y''"] absent
  have "discussions (parseSummary ''Notes:\<newline>- x\<newline>\<newline>- y'') = []"
       "lastTask (parseSummary ''Notes:\<newline>- x\<newline>\<newline>- y'') = []"
       "context (parseSummary ''Notes:\<newline>- x\<newline>\<newline>- y'') = []"
    unfolding sections by simp_all
  then have "parseSummary ''Notes:\<newline>- x\<newline>\<newline>- y'' = \<lparr>discussions = [], lastTask = [], context = []\<rparr>"
    by (cases "parseSummary ''Notes:\<newline>- x\<newline>\<newline>- y''") simp
  with sections absent show ?thesis by blast
qed

section \<open>Theorems about the streaming gateway\<close>

lemma contentToSendOf_eq: "contentToSendOf c = convertMessageContentToString c"
  by (cases c) (auto simp: contentToSendOf_def)

text \<open>
  The loop when the writer accepts every call: it sends the non-empty texts of the AI
  chunks up to the first message of another kind, then ends as the iteration ends, or
  writes the sentinel and closes at that message.
\<close>

lemma streamLoop_accepting:
  assumes "\<forall>h c. w h c = None" "\<not> isStreamClosed st"
  shows "streamLoop w xs atEnd st =
     (if list_all isAIMessageChunk xs
      then (atEnd, st\<lparr>calls := calls st @
              map (\<lambda>message. Write (DataEvent (convertMessageContentToString (chunkContent message))))
                (filter (\<lambda>message. convertMessageContentToString (chunkContent message) \<noteq> []) xs)\<rparr>)
      else (None, st\<lparr>isStreamClosed := True, calls := calls st @
              map (\<lambda>message. Write (DataEvent (convertMessageContentToString (chunkContent message))))
                (filter (\<lambda>message. convertMessageContentToString (chunkContent message) \<noteq> [])
                   (takeWhile isAIMessageChunk xs)) @ [Write DoneEvent, Close]\<rparr>))"
  using assms
proof (induction xs arbitrary: st)
  case Nil
  then show ?case by simp
next
  case (Cons x xs)
  show ?case
  proof (cases "isAIMessageChunk x")
    case False
    with Cons.prems show ?thesis
      by (simp add: writeAndClose_def writerCall_def)
  next
    case True
    show ?thesis
    proof (cases "convertMessageContentToString (chunkContent x) = []")
      case True
      with \<open>isAIMessageChunk x\<close> Cons show ?thesis
        by (simp add: contentToSendOf_eq)
    next
      case False
      let ?st1 = "st\<lparr>calls := calls st @ [Write (DataEvent (convertMessageContentToString (chunkContent x)))]\<rparr>"
      have "\<not> isStreamClosed ?st1" using Cons.prems by simp
      from Cons.IH[OF Cons.prems(1) this] False \<open>isAIMessageChunk x\<close> Cons.prems show ?thesis
        by (simp add: contentToSendOf_eq writerCall_def)
    qed
  qed
qed

lemma streamTask_accepting:
  assumes "\<forall>h c. w h c = None"
  shows "streamTask w response initialStreamState =
     (None, \<lparr>isStreamClosed = True, calls =
        map (\<lambda>message. Write (DataEvent (convertMessageContentToString (chunkContent message))))
          (filter (\<lambda>message. convertMessageContentToString (chunkContent message) \<noteq> [])
             (takeWhile isAIMessageChunk (yielded response)))
        @ [Write (if list_all isAIMessageChunk (yielded response)
                  then (case thrown response of
                          None \<Rightarrow> DoneEvent
                        | Some error \<Rightarrow> ErrorEvent (errorMessageOf error))
                  else DoneEvent), Close]\<rparr>)"
proof -
  have open0: "\<not> isStreamClosed initialStreamState" by (simp add: initialStreamState_def)
  have wc: "\<And>c st. writerCall w c st = (None, st\<lparr>calls := calls st @ [c]\<rparr>)"
    using assms by (simp add: writerCall_def)
  note loop = streamLoop_accepting[OF assms open0, of "yielded response" "thrown response"]
  show ?thesis
  proof (cases "list_all isAIMessageChunk (yielded response)")
    case False
    then show ?thesis
      unfolding streamTask_def streamTry_def loop
      by (simp add: initialStreamState_def)
  next
    case True
    then have tw: "takeWhile isAIMessageChunk (yielded response) = yielded response"
      by (simp add: list_all_iff)
    from True show ?thesis
      unfolding streamTask_def streamTry_def loop
      by (cases "thrown response")
         (simp_all add: initialStreamState_def tw writeAndClose_def wc)
  qed
qed

text \<open>Whatever the writer does, a data event written comes from a chunk of the loop.\<close>

lemma writeAndClose_data:
  "(\<And>t. ev \<noteq> DataEvent t) \<Longrightarrow>
   Write (DataEvent text) \<in> set (calls (snd (writeAndClose w ev st)))
     \<longleftrightarrow> Write (DataEvent text) \<in> set (calls st)"
  by (auto simp: writeAndClose_def writerCall_def split: option.splits)

lemma streamLoop_data:
  "Write (DataEvent text) \<in> set (calls (snd (streamLoop w xs atEnd st))) \<Longrightarrow>
   Write (DataEvent text) \<in> set (calls st)
   \<or> text \<in> (\<lambda>message. convertMessageContentToString (chunkContent message))
              ` set (takeWhile isAIMessageChunk xs)"
proof (induction xs arbitrary: st)
  case Nil
  then show ?case by simp
next
  case (Cons x xs)
  show ?case
  proof (cases "isStreamClosed st \<or> \<not> isAIMessageChunk x")
    case True
    with Cons.prems show ?thesis
      using writeAndClose_data[of DoneEvent "text" w st] by (auto split: if_splits)
  next
    case False
    let ?t = "contentToSendOf (chunkContent x)"
    let ?st1 = "st\<lparr>calls := calls st @ [Write (DataEvent ?t)]\<rparr>"
    from False Cons.prems
    have "Write (DataEvent text) \<in> set (calls (snd (streamLoop w xs atEnd st)))
        \<or> Write (DataEvent text) \<in> set (calls (snd (streamLoop w xs atEnd ?st1)))
        \<or> Write (DataEvent text) \<in> set (calls ?st1)"
      by (auto simp: Let_def writerCall_def split: if_splits option.splits)
    with Cons.IH[of st] Cons.IH[of ?st1] False show ?thesis
      by (auto simp: contentToSendOf_eq)
  qed
qed

lemma streamTask_data:
  assumes "Write (DataEvent text) \<in> set (calls (snd (streamTask w response initialStreamState)))"
  shows "text \<in> (\<lambda>message. convertMessageContentToString (chunkContent message))
              ` set (takeWhile isAIMessageChunk (yielded response))"
proof (cases "streamLoop w (yielded response) (thrown response) initialStreamState")
  case (Pair r st1)
  have st1: "Write (DataEvent text) \<in> set (calls st1) \<Longrightarrow> ?thesis"
    using streamLoop_data[of "text" w "yielded response" "thrown response" initialStreamState] Pair
    by (auto simp: initialStreamState_def)
  show ?thesis
  proof (cases "streamTry w response initialStreamState")
    case tried: (Pair r2 st2)
    have st2: "Write (DataEvent text) \<in> set (calls st2) \<Longrightarrow> Write (DataEvent text) \<in> set (calls st1)"
      using tried Pair writeAndClose_data[of DoneEvent "text" w st1]
      by (cases r) (auto simp: streamTry_def split: if_splits)
    have "Write (DataEvent text) \<in> set (calls st2)"
      using assms tried writeAndClose_data[of "ErrorEvent (errorMessageOf (the r2))" "text" w st2]
      by (cases r2) (auto simp: streamTask_def split: if_splits)
    with st1 st2 show ?thesis by blast
  qed
qed

text \<open>
  C1, as amended. Every data event of a turn carries the text of one AI chunk that
  arrived before the first message of another kind: the text of that chunk alone, not
  the answer accumulated so far. When the writer accepts the calls made on it, the data
  events are, in generation order, one for every such chunk with a non-empty text; after
  them come one last event, the sentinel or an error event, and the close.
\<close>

theorem stream_events_per_fragment:
  "(\<forall>text. Write (DataEvent text) \<in> set (calls (snd (streamTask w response initialStreamState)))
       \<longrightarrow> text \<in> (\<lambda>message. convertMessageContentToString (chunkContent message))
                    ` set (takeWhile isAIMessageChunk (yielded response)))
   \<and> ((\<forall>h c. w h c = None) \<longrightarrow>
        (\<exists>lastEvent.
           calls (snd (streamTask w response initialStreamState)) =
             map (\<lambda>message. Write (DataEvent (convertMessageContentToString (chunkContent message))))
               (filter (\<lambda>message. convertMessageContentToString (chunkContent message) \<noteq> [])
                  (takeWhile isAIMessageChunk (yielded response)))
             @ [Write lastEvent, Close]
         \<and> (lastEvent = DoneEvent \<or> (\<exists>errorMessage. lastEvent = ErrorEvent errorMessage))))"
proof -
  have "\<exists>lastEvent.
           calls (snd (streamTask w response initialStreamState)) =
             map (\<lambda>message. Write (DataEvent (convertMessageContentToString (chunkContent message))))
               (filter (\<lambda>message. convertMessageContentToString (chunkContent message) \<noteq> [])
                  (takeWhile isAIMessageChunk (yielded response)))
             @ [Write lastEvent, Close]
         \<and> (lastEvent = DoneEvent \<or> (\<exists>errorMessage. lastEvent = ErrorEvent errorMessage))"
    if accepts: "\<forall>h c. w h c = None"
  proof (cases "list_all isAIMessageChunk (yielded response) \<and> thrown response \<noteq> None")
    case True
    then obtain error where "thrown response = Some error" by auto
    with True show ?thesis
      by (intro exI[of _ "ErrorEvent (errorMessageOf error)"])
         (simp add: streamTask_accepting[OF accepts])
  next
    case False
    then show ?thesis
      by (intro exI[of _ DoneEvent]) (auto simp: streamTask_accepting[OF accepts])
  qed
  with streamTask_data[of _ w response] show ?thesis by blast
qed

theorem stream_events_per_fragment_witness:
  "(\<forall>h c. (\<lambda>h c. None :: js_thrown option) h c = None)
   \<and> calls (snd (streamTask (\<lambda>h c. None)
      \<lparr>yielded = [AIMessageChunk (ContentString ''Hello''), AIMessageChunk (ContentString []),
                  AIMessageChunk (ContentString '' world''), OtherMessage,
                  AIMessageChunk (ContentString ''late'')],
        thrown = None\<rparr> initialStreamState))
     = [Write (DataEvent ''Hello''), Write (DataEvent '' world''), Write DoneEvent, Close]"
proof -
  have accepts: "\<forall>h c. (\<lambda>h c. None :: js_thrown option) h c = None" by simp
  from stream_events_per_fragment[of "\<lambda>h c. None"
      "\<lparr>yielded = [AIMessageChunk (ContentString ''Hello''), AIMessageChunk (ContentString []),
                  AIMessageChunk (ContentString '' world''), OtherMessage,
                  AIMessageChunk (ContentString ''late'')],
        thrown = None\<rparr>", THEN conjunct2, THEN mp, OF accepts]
  obtain lastEvent where
    l: "calls (snd (streamTask (\<lambda>h c. None)
      \<lparr>yielded = [AIMessageChunk (ContentString ''Hello''), AIMessageChunk (ContentString []),
                  AIMessageChunk (ContentString '' world''), OtherMessage,
                  AIMessageChunk (ContentString ''late'')],
        thrown = None\<rparr> initialStreamState))
      = [Write (DataEvent ''Hello''), Write (DataEvent '' world''), Write lastEvent, Close]"
    by auto
  have "calls (snd (streamTask (\<lambda>h c. None)
      \<lparr>yielded = [AIMessageChunk (ContentString ''Hello''), AIMessageChunk (ContentString []),
                  AIMessageChunk (ContentString '' world''), OtherMessage,
                  AIMessageChunk (ContentString ''late'')],
        thrown = None\<rparr> initialStreamState)) ! 2 = Write DoneEvent"
    by (simp add: streamTask_def streamTry_def initialStreamState_def contentToSendOf_def
        writeAndClose_def writerCall_def)
  with l have "lastEvent = DoneEvent" by simp
  with l accepts show ?thesis by simp
qed

text \<open>
  C1 as stated fails: for the two chunks \<^verbatim>\<open>Hello\<close> and \<^verbatim>\<open> world\<close> the second data
  event carries \<^verbatim>\<open> world\<close>; the answer so far, \<^verbatim>\<open>Hello world\<close>, is never written.
\<close>

theorem stream_events_counterexample:
  "calls (snd (streamTask (\<lambda>h c. None)
      \<lparr>yielded = [AIMessageChunk (ContentString ''Hello''), AIMessageChunk (ContentString '' world'')],
        thrown = None\<rparr> initialStreamState))
     = [Write (DataEvent ''Hello''), Write (DataEvent '' world''), Write DoneEvent, Close]
   \<and> Write (DataEvent ''Hello world'') \<notin> set (calls (snd (streamTask (\<lambda>h c. None)
      \<lparr>yielded = [AIMessageChunk (ContentString ''Hello''), AIMessageChunk (ContentString '' world'')],
        thrown = None\<rparr> initialStreamState)))"
  by (simp add: streamTask_def streamTry_def initialStreamState_def contentToSendOf_def
        writeAndClose_def writerCall_def)

text \<open>
  The sentinel is told from the data events by the statement that writes it, not by its
  text: a chunk whose text is \<^verbatim>\<open>[DONE]\<close> gives a data event with the sentinel's text.
\<close>

lemma frame_data_done: "frame (DataEvent ''[DONE]'') = frame DoneEvent"
  by simp

text \<open>The sentinel is written at most once, whatever the writer does.\<close>

lemma writeAndClose_sentinels:
  "count_list (calls (snd (writeAndClose w ev st))) (Write DoneEvent)
     = count_list (calls st) (Write DoneEvent) + (if ev = DoneEvent then 1 else 0)"
  by (auto simp: writeAndClose_def writerCall_def split: option.splits)

lemma writeAndClose_closed:
  "fst (writeAndClose w ev st) = None \<Longrightarrow> isStreamClosed (snd (writeAndClose w ev st))"
  by (auto simp: writeAndClose_def writerCall_def split: option.splits)

lemma streamLoop_sentinels:
  "count_list (calls (snd (streamLoop w xs atEnd st))) (Write DoneEvent)
      \<le> count_list (calls st) (Write DoneEvent) + 1
   \<and> (fst (streamLoop w xs atEnd st) = None \<and> \<not> isStreamClosed (snd (streamLoop w xs atEnd st))
        \<longrightarrow> count_list (calls (snd (streamLoop w xs atEnd st))) (Write DoneEvent)
            = count_list (calls st) (Write DoneEvent))"
proof (induction xs arbitrary: st)
  case Nil
  then show ?case by simp
next
  case (Cons x xs)
  show ?case
  proof (cases "isStreamClosed st \<or> \<not> isAIMessageChunk x")
    case True
    then show ?thesis
      using writeAndClose_sentinels[of w DoneEvent st] writeAndClose_closed[of w DoneEvent st]
      by auto
  next
    case False
    let ?t = "contentToSendOf (chunkContent x)"
    let ?st1 = "st\<lparr>calls := calls st @ [Write (DataEvent ?t)]\<rparr>"
    have same: "count_list (calls ?st1) (Write DoneEvent) = count_list (calls st) (Write DoneEvent)"
      by simp
    show ?thesis
      using False Cons.IH[of st] Cons.IH[of ?st1] same
      by (auto simp: Let_def writerCall_def split: option.splits)
  qed
qed

lemma streamTask_sentinels:
  "count_list (calls (snd (streamTask w response initialStreamState))) (Write DoneEvent) \<le> 1"
proof (cases "streamLoop w (yielded response) (thrown response) initialStreamState")
  case (Pair r st1)
  have init: "count_list (calls initialStreamState) (Write DoneEvent) = 0"
    by (simp add: initialStreamState_def)
  from streamLoop_sentinels[of w "yielded response" "thrown response" initialStreamState] Pair init
  have le: "count_list (calls st1) (Write DoneEvent) \<le> 1"
    and eq: "r = None \<and> \<not> isStreamClosed st1 \<Longrightarrow> count_list (calls st1) (Write DoneEvent) = 0"
    by auto
  show ?thesis
  proof (cases "streamTry w response initialStreamState")
    case tried: (Pair r2 st2)
    have le2: "count_list (calls st2) (Write DoneEvent) \<le> 1"
      using tried Pair le eq writeAndClose_sentinels[of w DoneEvent st1]
      by (cases r) (auto simp: streamTry_def split: if_splits)
    show ?thesis
      using tried le2 writeAndClose_sentinels[of w "ErrorEvent (errorMessageOf (the r2))" st2]
      by (cases r2) (auto simp: streamTask_def)
  qed
qed

lemma apiError_sentinels:
  "count_list (calls (snd (apiError env error initialStreamState))) (Write DoneEvent) = 0"
  by (simp add: apiError_def initialStreamState_def)

lemma handleChatStream_sentinels:
  "count_list (calls (fst (snd (handleChatStream w env userMessage threadId activeThreads))))
     (Write DoneEvent) \<le> 1"
proof (cases "createOrGetConversation env (Some threadId) activeThreads")
  case (Pair r registry)
  show ?thesis
  proof (cases r)
    case (Inl error)
    with Pair show ?thesis
      by (simp add: handleChatStream_def case_prod_beta apiError_sentinels)
  next
    case (Inr thread_id)
    with Pair show ?thesis
      using streamTask_sentinels[of w]
      by (cases "graphStream env userMessage thread_id")
         (simp_all add: handleChatStream_def case_prod_beta apiError_sentinels)
  qed
qed


text \<open>A chunk with nothing to send is passed over: the loop goes on as if it were not there.\<close>

lemma writerCall_closed: "isStreamClosed (snd (writerCall w c st)) = isStreamClosed st"
  by (simp add: writerCall_def)

lemma streamLoop_skips_empty:
  assumes "contentToSendOf content0 = []" "\<not> isStreamClosed st"
  shows "streamLoop w (before @ AIMessageChunk content0 # after) atEnd st
       = streamLoop w (before @ after) atEnd st"
  using assms(2)
proof (induction before arbitrary: st)
  case Nil
  with assms(1) show ?case by simp
next
  case (Cons x before)
  show ?case
  proof (cases "writerCall w (Write (DataEvent (contentToSendOf (chunkContent x)))) st")
    case (Pair r st1)
    then have "\<not> isStreamClosed st1"
      using writerCall_closed[of w "Write (DataEvent (contentToSendOf (chunkContent x)))" st] Cons.prems
      by simp
    from Cons.IH[OF this] Cons.IH[OF Cons.prems] Pair Cons.prems show ?thesis
      by (simp add: Let_def split: option.splits)
  qed
qed

text \<open>No writer call of the handler carries a data event with an empty text.\<close>

lemma writeAndClose_dataNonEmpty:
  "Write (DataEvent []) \<notin> set (calls st) \<Longrightarrow> ev \<noteq> DataEvent [] \<Longrightarrow>
   Write (DataEvent []) \<notin> set (calls (snd (writeAndClose w ev st)))"
  by (auto simp: writeAndClose_def writerCall_def split: option.splits)

lemma streamLoop_dataNonEmpty:
  "Write (DataEvent []) \<notin> set (calls st) \<Longrightarrow>
   Write (DataEvent []) \<notin> set (calls (snd (streamLoop w xs atEnd st)))"
proof (induction xs arbitrary: st)
  case Nil
  then show ?case by simp
next
  case (Cons x xs)
  have sent: "Write (DataEvent []) \<notin> set (calls (st\<lparr>calls := calls st @ [Write (DataEvent t)]\<rparr>))"
    if "t \<noteq> []" for t
    using Cons.prems that by simp
  show ?case
    using Cons.prems Cons.IH[OF Cons.prems] Cons.IH[OF sent] writeAndClose_dataNonEmpty[OF Cons.prems]
    by (auto simp: Let_def writerCall_def split: option.splits)
qed

lemma streamTry_dataNonEmpty:
  assumes "Write (DataEvent []) \<notin> set (calls st)"
  shows "Write (DataEvent []) \<notin> set (calls (snd (streamTry w response st)))"
proof (cases "streamLoop w (yielded response) (thrown response) st")
  case (Pair r st1)
  with streamLoop_dataNonEmpty[OF assms, of w "yielded response" "thrown response"]
  have st1: "Write (DataEvent []) \<notin> set (calls st1)" by simp
  have "Write (DataEvent []) \<notin> set (calls (snd (writeAndClose w DoneEvent st1)))"
    by (rule writeAndClose_dataNonEmpty[OF st1]) simp
  with st1 Pair show ?thesis
    by (cases r) (simp_all add: streamTry_def)
qed

lemma streamTask_dataNonEmpty:
  "Write (DataEvent []) \<notin> set (calls (snd (streamTask w response initialStreamState)))"
proof (cases "streamTry w response initialStreamState")
  case (Pair r st1)
  have "Write (DataEvent []) \<notin> set (calls initialStreamState)"
    by (simp add: initialStreamState_def)
  from streamTry_dataNonEmpty[OF this, of w response] Pair
  have st1: "Write (DataEvent []) \<notin> set (calls st1)" by simp
  have "Write (DataEvent []) \<notin> set (calls (snd (writeAndClose w (ErrorEvent m) st1)))" for m
    by (rule writeAndClose_dataNonEmpty[OF st1]) simp
  with st1 Pair show ?thesis
    by (cases r) (simp_all add: streamTask_def)
qed

text \<open>
  C10. A chunk whose content converts to the empty string makes no difference to the
  run: the task does, call for call, what it does without that chunk, so no data event
  is written for it. And every data event among the writer's calls has a text that is
  not empty. Both hold whatever the writer does.
\<close>

theorem empty_fragment_sends_nothing:
  "(convertMessageContentToString content0 = [] \<longrightarrow>
      streamTask w \<lparr>yielded = before @ AIMessageChunk content0 # after, thrown = atEnd\<rparr>
          initialStreamState
        = streamTask w \<lparr>yielded = before @ after, thrown = atEnd\<rparr> initialStreamState)
   \<and> (\<forall>text. Write (DataEvent text) \<in> set (calls (snd (streamTask w response initialStreamState)))
         \<longrightarrow> text \<noteq> [])"
proof -
  have "streamTask w \<lparr>yielded = before @ AIMessageChunk content0 # after, thrown = atEnd\<rparr>
          initialStreamState
        = streamTask w \<lparr>yielded = before @ after, thrown = atEnd\<rparr> initialStreamState"
    if "convertMessageContentToString content0 = []"
  proof -
    have "contentToSendOf content0 = []" using that by (simp add: contentToSendOf_eq)
    moreover have "\<not> isStreamClosed initialStreamState" by (simp add: initialStreamState_def)
    ultimately show ?thesis
      by (simp add: streamTask_def streamTry_def streamLoop_skips_empty)
  qed
  moreover have "\<forall>text. Write (DataEvent text) \<in> set (calls (snd (streamTask w response initialStreamState)))
         \<longrightarrow> text \<noteq> []"
    using streamTask_dataNonEmpty[of w response] by auto
  ultimately show ?thesis by blast
qed

theorem empty_fragment_sends_nothing_witness:
  "convertMessageContentToString (ContentArray [ComplexPart UntypedPart, StringPart []]) = []
   \<and> streamTask (\<lambda>h c. None)
        \<lparr>yielded = [AIMessageChunk (ContentString ''Hello'')]
                    @ AIMessageChunk (ContentArray [ComplexPart UntypedPart, StringPart []])
                    # [AIMessageChunk (ContentString ''!'')],
          thrown = None\<rparr> initialStreamState
      = streamTask (\<lambda>h c. None)
          \<lparr>yielded = [AIMessageChunk (ContentString ''Hello'')] @ [AIMessageChunk (ContentString ''!'')],
            thrown = None\<rparr> initialStreamState
   \<and> Write (DataEvent ''Hello'') \<in> set (calls (snd (streamTask (\<lambda>h c. None)
          \<lparr>yielded = [AIMessageChunk (ContentString ''Hello'')], thrown = None\<rparr> initialStreamState)))
   \<and> ''Hello'' \<noteq> []"
proof -
  have empty: "convertMessageContentToString (ContentArray [ComplexPart UntypedPart, StringPart []]) = []"
    by simp
  have sent: "Write (DataEvent ''Hello'') \<in> set (calls (snd (streamTask (\<lambda>h c. None)
          \<lparr>yielded = [AIMessageChunk (ContentString ''Hello'')], thrown = None\<rparr> initialStreamState)))"
    by (simp add: streamTask_def streamTry_def initialStreamState_def contentToSendOf_def
          writeAndClose_def writerCall_def)
  from empty_fragment_sends_nothing[of
      "ContentArray [ComplexPart UntypedPart, StringPart []]" "\<lambda>h c. None"
      "[AIMessageChunk (ContentString ''Hello'')]" "[AIMessageChunk (ContentString ''!'')]" None
      "\<lparr>yielded = [AIMessageChunk (ContentString ''Hello'')], thrown = None\<rparr>"]
    empty sent
  show ?thesis by blast
qed

section \<open>Theorems about the request handlers and the registry\<close>

text \<open>
  C6, as amended. A GET request, and a POST request whose body parses to a JSON value
  other than \<^verbatim>\<open>null\<close>, in which the message or the thread id is missing or empty (or
  falsy in any other way), is answered with status 400 and the error
  \<^verbatim>\<open>Message and threadId are required\<close>, and \<^verbatim>\<open>handleChatStream\<close> is not called:
  no stream is created, the registry is not touched and the graph is not run.
\<close>

theorem validation_rejects_missing:
  "((\<not> truthyString (messageParam request) \<or> \<not> truthyString (threadIdParam request))
      \<longrightarrow> GET request = Respond (JsonError 400 ''Message and threadId are required''))
   \<and> ((getProperty body ''message'' = Inr message \<and> getProperty body ''threadId'' = Inr threadId
        \<and> (\<not> truthy message \<or> \<not> truthy threadId))
      \<longrightarrow> POST (Inr body) = Respond (JsonError 400 ''Message and threadId are required''))"
  by (auto simp: GET_def POST_def Let_def)

theorem validation_rejects_missing_witness:
  "\<not> truthyString (threadIdParam \<lparr>messageParam = Some ''hi'', threadIdParam = Some []\<rparr>)
   \<and> GET \<lparr>messageParam = Some ''hi'', threadIdParam = Some []\<rparr>
        = Respond (JsonError 400 ''Message and threadId are required'')
   \<and> getProperty (JObject [(''message'', JString ''hi'')]) ''message'' = Inr (Some (JString ''hi''))
   \<and> getProperty (JObject [(''message'', JString ''hi'')]) ''threadId'' = Inr None
   \<and> \<not> truthy None
   \<and> POST (Inr (JObject [(''message'', JString ''hi'')]))
        = Respond (JsonError 400 ''Message and threadId are required'')"
proof -
  have g: "\<not> truthyString (threadIdParam \<lparr>messageParam = Some ''hi'', threadIdParam = Some []\<rparr>)"
    by (simp add: truthyString_def)
  have p: "getProperty (JObject [(''message'', JString ''hi'')]) ''message'' = Inr (Some (JString ''hi''))
      \<and> getProperty (JObject [(''message'', JString ''hi'')]) ''threadId'' = Inr None
      \<and> \<not> truthy None"
    by simp
  from validation_rejects_missing[of "\<lparr>messageParam = Some ''hi'', threadIdParam = Some []\<rparr>"
      "JObject [(''message'', JString ''hi'')]" "Some (JString ''hi'')" None] g p
  show ?thesis by blast
qed

text \<open>
  C6 as stated fails for POST: a body that does not parse (an empty body, say) and the
  body \<^verbatim>\<open>null\<close> carry no message, and are answered with status 500 and
  \<^verbatim>\<open>Internal server error\<close>, by the handler's own \<^verbatim>\<open>catch\<close>, not with 400.
\<close>

theorem validation_counterexample:
  "POST (Inl (ErrorObject ''Unexpected end of JSON input''))
     = Respond (JsonError 500 ''Internal server error'')
   \<and> POST (Inr JNull) = Respond (JsonError 500 ''Internal server error'')
   \<and> POST (Inr JNull) \<noteq> Respond (JsonError 400 ''Message and threadId are required'')"
  by (simp add: POST_def)

text \<open>
  C2, as amended. When no thread id is supplied (or an empty one), the registry takes the
  identifier \<^verbatim>\<open>uuidv4()\<close> returns; when a non-empty id is supplied that is not
  tracked, it takes that very id, not a new one. In both cases it records the id with
  the current time and returns it in the configuration (unless the initialisation of the
  graph throws, which comes after the recording).
\<close>

theorem createOrGetConversation_untracked:
  "((existingThreadId = None \<or> existingThreadId = Some [])
      \<longrightarrow> createOrGetConversation env existingThreadId activeThreads
          = ((case initializeGraph env of Some error \<Rightarrow> Inl error | None \<Rightarrow> Inr (uuidv4 env)),
             activeThreads(uuidv4 env \<mapsto> dateNow env)))
   \<and> ((supplied \<noteq> [] \<and> supplied \<notin> dom activeThreads)
      \<longrightarrow> createOrGetConversation env (Some supplied) activeThreads
          = ((case initializeGraph env of Some error \<Rightarrow> Inl error | None \<Rightarrow> Inr supplied),
             activeThreads(supplied \<mapsto> dateNow env)))"
  by (auto simp: createOrGetConversation_def truthyString_def Let_def)

theorem createOrGetConversation_untracked_witness:
  "createOrGetConversation
       \<lparr>uuidv4 = ''3f2a'', dateNow = 1700000000000, initializeGraph = None,
         graphStream = (\<lambda>m t. Inl NonError), stringifyError = (\<lambda>m. m)\<rparr> None [''t0'' \<mapsto> 5]
     = (Inr ''3f2a'', [''t0'' \<mapsto> 5, ''3f2a'' \<mapsto> 1700000000000])
   \<and> ''t1'' \<noteq> [] \<and> ''t1'' \<notin> dom [''t0'' \<mapsto> (5::int)]
   \<and> createOrGetConversation
       \<lparr>uuidv4 = ''3f2a'', dateNow = 1700000000000, initializeGraph = None,
         graphStream = (\<lambda>m t. Inl NonError), stringifyError = (\<lambda>m. m)\<rparr> (Some ''t1'') [''t0'' \<mapsto> 5]
     = (Inr ''t1'', [''t0'' \<mapsto> 5, ''t1'' \<mapsto> 1700000000000])"
proof -
  have untracked: "''t1'' \<noteq> [] \<and> ''t1'' \<notin> dom [''t0'' \<mapsto> (5::int)]" by simp
  from createOrGetConversation_untracked[of None
      "\<lparr>uuidv4 = ''3f2a'', dateNow = 1700000000000, initializeGraph = None,
        graphStream = (\<lambda>m t. Inl NonError), stringifyError = (\<lambda>m. m)\<rparr>"
      "[''t0'' \<mapsto> 5]" "''t1''"] untracked
  show ?thesis by simp
qed

text \<open>
  C2 as stated fails: for the supplied id \<^verbatim>\<open>t1\<close>, which is not tracked, the id
  returned and recorded is \<^verbatim>\<open>t1\<close> itself; the identifier \<^verbatim>\<open>uuidv4()\<close> would
  return is not used.
\<close>

theorem createOrGetConversation_counterexample:
  "fst (createOrGetConversation
       \<lparr>uuidv4 = ''3f2a'', dateNow = 1700000000000, initializeGraph = None,
         graphStream = (\<lambda>m t. Inl NonError), stringifyError = (\<lambda>m. m)\<rparr> (Some ''t1'') Map.empty)
     = Inr ''t1''
   \<and> snd (createOrGetConversation
       \<lparr>uuidv4 = ''3f2a'', dateNow = 1700000000000, initializeGraph = None,
         graphStream = (\<lambda>m t. Inl NonError), stringifyError = (\<lambda>m. m)\<rparr> (Some ''t1'') Map.empty)
     = [''t1'' \<mapsto> 1700000000000]
   \<and> fst (createOrGetConversation
       \<lparr>uuidv4 = ''3f2a'', dateNow = 1700000000000, initializeGraph = None,
         graphStream = (\<lambda>m t. Inl NonError), stringifyError = (\<lambda>m. m)\<rparr> (Some ''t1'') Map.empty)
     \<noteq> Inr ''3f2a''"
  by (simp add: createOrGetConversation_def truthyString_def Let_def)

section \<open>Theorems about the retrieval-augmented responder\<close>

lemma vectorSearch_requests:
  "LlmInvokeCall prompt \<notin> set (snd (vectorSearch svc query))"
  by (auto simp: vectorSearch_def Let_def split: sum.splits)

text \<open>
  C3. Whenever the retrieval of the turn (the embedding of the query, and the index
  query with the embedding awaited beside it) returns and holds no matches, the matches
  being missing or an empty array, \<^verbatim>\<open>invoke\<close> returns exactly the fixed answer
  \<^verbatim>\<open>No matching results found in the database.\<close>, with the query and that answer as
  the pair for the history and an empty context, and no request to the completion
  service is among the requests of the turn.
\<close>

theorem invoke_no_matches:
  assumes "fst (vectorSearch svc (input state)) = Inr searchResults"
    and "matches searchResults = None \<or> matches searchResults = Some []"
  shows "fst (invoke svc state)
       = \<lparr>new_chat_history = [HumanMessage (input state),
                               AIMessage ''No matching results found in the database.''],
          new_context = [],
          answer = ''No matching results found in the database.''\<rparr>
     \<and> (\<forall>prompt. LlmInvokeCall prompt \<notin> set (snd (invoke svc state)))"
proof (cases "vectorSearch svc (input state)")
  case (Pair r requests)
  with assms(1) have r: "r = Inr searchResults" by simp
  have "LlmInvokeCall prompt \<notin> set requests" for prompt
    using vectorSearch_requests[of prompt svc "input state"] Pair by simp
  with assms(2) Pair r show ?thesis
    by (auto simp: invoke_def invokeTry_def Let_def noResultsMessage_def)
qed

theorem invoke_no_matches_witness:
  "fst (vectorSearch
          \<lparr>embedQuery = (\<lambda>q. Inr [1 :: int]), embedQueryAgain = (\<lambda>q. Inr [1]),
            indexQuery = (\<lambda>v k f. Inr \<lparr>matches = Some ([] :: int scored_match list)\<rparr>),
            toFixed2 = (\<lambda>s. ''0.00''), toUpperCase = (\<lambda>s. s),
            stringifyResults = (\<lambda>r. ''[]''),
            stringifyResultsIndented = (\<lambda>r. ''[]''), formatPrompt = (\<lambda>h q r. Inr (h @ q @ r)),
            llmInvoke = (\<lambda>p. Inr (ContentString ''unused'')), stringifyContent = (\<lambda>c. [])\<rparr>
          (input \<lparr>input = ''What is YC?'', chat_history = []\<rparr>))
     = Inr \<lparr>matches = Some []\<rparr>
   \<and> invoke
          \<lparr>embedQuery = (\<lambda>q. Inr [1 :: int]), embedQueryAgain = (\<lambda>q. Inr [1]),
            indexQuery = (\<lambda>v k f. Inr \<lparr>matches = Some ([] :: int scored_match list)\<rparr>),
            toFixed2 = (\<lambda>s. ''0.00''), toUpperCase = (\<lambda>s. s),
            stringifyResults = (\<lambda>r. ''[]''),
            stringifyResultsIndented = (\<lambda>r. ''[]''), formatPrompt = (\<lambda>h q r. Inr (h @ q @ r)),
            llmInvoke = (\<lambda>p. Inr (ContentString ''unused'')), stringifyContent = (\<lambda>c. [])\<rparr>
          \<lparr>input = ''What is YC?'', chat_history = []\<rparr>
     = (\<lparr>new_chat_history = [HumanMessage ''What is YC?'',
                              AIMessage ''No matching results found in the database.''],
         new_context = [],
         answer = ''No matching results found in the database.''\<rparr>,
        [EmbedQueryCall ''What is YC?'', IndexQueryCall 2 ''company'',
         EmbedQueryCall ''What is YC?''])"
proof -
  let ?svc = "\<lparr>embedQuery = (\<lambda>q. Inr [1 :: int]), embedQueryAgain = (\<lambda>q. Inr [1]),
            indexQuery = (\<lambda>v k f. Inr \<lparr>matches = Some ([] :: int scored_match list)\<rparr>),
            toFixed2 = (\<lambda>s. ''0.00''), toUpperCase = (\<lambda>s. s),
            stringifyResults = (\<lambda>r. ''[]''),
            stringifyResultsIndented = (\<lambda>r. ''[]''), formatPrompt = (\<lambda>h q r. Inr (h @ q @ r)),
            llmInvoke = (\<lambda>p. Inr (ContentString ''unused'')), stringifyContent = (\<lambda>c. [])\<rparr>"
  let ?state = "\<lparr>input = ''What is YC?'', chat_history = []\<rparr>"
  have search: "vectorSearch ?svc (input ?state)
      = (Inr \<lparr>matches = Some []\<rparr>,
         [EmbedQueryCall ''What is YC?'', IndexQueryCall 2 ''company'',
          EmbedQueryCall ''What is YC?''])"
    by (simp add: vectorSearch_def typeFilterOf_def toLowerCase_def toLowerCaseChar_def
          startsWith_def Let_def)
  then have found: "fst (vectorSearch ?svc (input ?state)) = Inr \<lparr>matches = Some []\<rparr>"
    by simp
  have none: "matches \<lparr>matches = Some ([] :: int scored_match list)\<rparr> = None
      \<or> matches \<lparr>matches = Some ([] :: int scored_match list)\<rparr> = Some []"
    by simp
  have requests: "snd (invoke ?svc ?state) = snd (vectorSearch ?svc (input ?state))"
    unfolding invoke_def invokeTry_def Let_def search by simp
  from invoke_no_matches[OF found none] requests search found
  show ?thesis
    by (cases "invoke ?svc ?state") simp
qed

text \<open>
  C4. Whatever throws inside \<^verbatim>\<open>invoke\<close>, be it the retrieval, the formatting of the
  matches, the rendering of the prompt or the completion, \<^verbatim>\<open>invoke\<close> returns the fixed
  apology as its answer, with the original query and the apology as the pair for the
  history. \<^verbatim>\<open>invoke\<close> has no other way to end than returning a result.
\<close>

theorem invoke_catches_every_failure:
  assumes "fst (vectorSearch svc (input state)) = Inl error
    \<or> (\<exists>searchResults found.
          fst (vectorSearch svc (input state)) = Inr searchResults
        \<and> matches searchResults = Some found \<and> found \<noteq> []
        \<and> (formatResults (toFixed2 svc) (toUpperCase svc) found = Inl error
           \<or> (\<exists>formattedResults.
                 formatResults (toFixed2 svc) (toUpperCase svc) found = Inr formattedResults
               \<and> (formatPrompt svc (renderChatHistory (chat_history state)) (input state)
                     (stringifyResultsIndented svc formattedResults) = Inl error
                  \<or> (\<exists>prompt.
                        formatPrompt svc (renderChatHistory (chat_history state)) (input state)
                          (stringifyResultsIndented svc formattedResults) = Inr prompt
                      \<and> llmInvoke svc prompt = Inl error)))))"
  shows "fst (invoke svc state)
       = \<lparr>new_chat_history =
            [HumanMessage (input state),
             AIMessage ''Sorry, I encountered an error while searching the database. Please try again.''],
          new_context = [],
          answer = ''Sorry, I encountered an error while searching the database. Please try again.''\<rparr>"
proof (cases "vectorSearch svc (input state)")
  case (Pair r requests)
  from assms Pair show ?thesis
    by (cases "matches (projr r)")
       (auto simp: invoke_def invokeTry_def Let_def errorMsg_def split: list.splits)
qed

theorem invoke_catches_every_failure_witness:
  "(\<exists>searchResults found.
      fst (vectorSearch
          \<lparr>embedQuery = (\<lambda>q. Inr [1 :: int]), embedQueryAgain = (\<lambda>q. Inr [1]),
            indexQuery = (\<lambda>v k f. Inr \<lparr>matches = Some [\<lparr>score = (1 :: int),
                              metadata = Some [''type'' \<mapsto> MString ''company'']\<rparr>]\<rparr>),
            toFixed2 = (\<lambda>s. ''100.00''), toUpperCase = (\<lambda>s. s),
            stringifyResults = (\<lambda>r. ''[]''),
            stringifyResultsIndented = (\<lambda>r. ''[]''), formatPrompt = (\<lambda>h q r. Inr (h @ q @ r)),
            llmInvoke = (\<lambda>p. Inl (ErrorObject ''overloaded'')), stringifyContent = (\<lambda>c. [])\<rparr>
          ''hi'') = Inr searchResults
      \<and> matches searchResults = Some found \<and> found \<noteq> []
      \<and> (\<exists>formattedResults. formatResults (\<lambda>s. ''100.00'') (\<lambda>s. s) found = Inr formattedResults))
   \<and> fst (invoke
          \<lparr>embedQuery = (\<lambda>q. Inr [1 :: int]), embedQueryAgain = (\<lambda>q. Inr [1]),
            indexQuery = (\<lambda>v k f. Inr \<lparr>matches = Some [\<lparr>score = (1 :: int),
                              metadata = Some [''type'' \<mapsto> MString ''company'']\<rparr>]\<rparr>),
            toFixed2 = (\<lambda>s. ''100.00''), toUpperCase = (\<lambda>s. s),
            stringifyResults = (\<lambda>r. ''[]''),
            stringifyResultsIndented = (\<lambda>r. ''[]''), formatPrompt = (\<lambda>h q r. Inr (h @ q @ r)),
            llmInvoke = (\<lambda>p. Inl (ErrorObject ''overloaded'')), stringifyContent = (\<lambda>c. [])\<rparr>
          \<lparr>input = ''hi'', chat_history = []\<rparr>)
     = \<lparr>new_chat_history =
          [HumanMessage ''hi'',
           AIMessage ''Sorry, I encountered an error while searching the database. Please try again.''],
        new_context = [],
        answer = ''Sorry, I encountered an error while searching the database. Please try again.''\<rparr>"
proof -
  let ?match = "\<lparr>score = (1 :: int), metadata = Some [''type'' \<mapsto> MString ''company'']\<rparr>"
  let ?svc = "\<lparr>embedQuery = (\<lambda>q. Inr [1 :: int]), embedQueryAgain = (\<lambda>q. Inr [1]),
            indexQuery = (\<lambda>v k f. Inr \<lparr>matches = Some [?match]\<rparr>),
            toFixed2 = (\<lambda>s. ''100.00''), toUpperCase = (\<lambda>s. s),
            stringifyResults = (\<lambda>r. ''[]''),
            stringifyResultsIndented = (\<lambda>r. ''[]''), formatPrompt = (\<lambda>h q r. Inr (h @ q @ r)),
            llmInvoke = (\<lambda>p. Inl (ErrorObject ''overloaded'')), stringifyContent = (\<lambda>c. [])\<rparr>"
  let ?state = "\<lparr>input = ''hi'', chat_history = []\<rparr>"
  let ?formatted = "[CompanyResult (MString ''N/A'') (MString ''N/A'') (MString ''N/A'')
       (MString ''N/A'') (MString ''N/A'') (MString ''N/A'') ''100.00'']"
  have search: "fst (vectorSearch ?svc ''hi'') = Inr \<lparr>matches = Some [?match]\<rparr>"
    by (simp add: vectorSearch_def Let_def)
  have fmt: "formatResults (\<lambda>s. ''100.00'') (\<lambda>s. s) [?match] = Inr ?formatted"
    by (simp add: formatMatch_def orNA_def)
  have failure: "fst (vectorSearch ?svc (input ?state)) = Inl (ErrorObject ''overloaded'')
    \<or> (\<exists>searchResults found.
          fst (vectorSearch ?svc (input ?state)) = Inr searchResults
        \<and> matches searchResults = Some found \<and> found \<noteq> []
        \<and> (formatResults (toFixed2 ?svc) (toUpperCase ?svc) found = Inl (ErrorObject ''overloaded'')
           \<or> (\<exists>formattedResults.
                 formatResults (toFixed2 ?svc) (toUpperCase ?svc) found = Inr formattedResults
               \<and> (formatPrompt ?svc (renderChatHistory (chat_history ?state)) (input ?state)
                     (stringifyResultsIndented ?svc formattedResults) = Inl (ErrorObject ''overloaded'')
                  \<or> (\<exists>prompt.
                        formatPrompt ?svc (renderChatHistory (chat_history ?state)) (input ?state)
                          (stringifyResultsIndented ?svc formattedResults) = Inr prompt
                      \<and> llmInvoke ?svc prompt = Inl (ErrorObject ''overloaded''))))))"
    using search fmt by simp
  from invoke_catches_every_failure[OF failure] search fmt
  show ?thesis by auto
qed


end
